theory Spec2Isabelle
  imports Main
begin

section \<open>Values of the script\<close>

text \<open>
  The script \<^verbatim>\<open>src/copy-products.ts\<close> moves catalog data between two channels of a
  store. The identifiers it reads from JSON responses are integers and are modelled as
  such (\<^typ>\<open>int\<close>); the channel identifier comes out of \<^verbatim>\<open>parseInt\<close> and is a number of
  the language, which can also be infinite. Strings are lists of 8-bit code units. A thrown
  exception is a value of type \<open>error\<close>, and a function that may throw returns
  \<open>error + 'a\<close> with \<open>Inl\<close> for the exception.
\<close>

datatype error =
  AssertionError string
| Error string

text \<open>
  A \<^verbatim>\<open>number\<close> of the language is a double. The doubles that occur here have integer
  values or are infinite or \<^verbatim>\<open>NaN\<close>: \<open>Finite i\<close> is the double whose value is the integer
  \<open>i\<close>. The conversion of a mathematical integer to the nearest double rounds to 53
  significant bits, ties to the even significand, and overflows to infinity from
  \<open>2 ^ 1024 - 2 ^ 970\<close> on.
\<close>

datatype number = NaN | Finite int | PosInfinity | NegInfinity

fun bit_length :: "nat \<Rightarrow> nat" where
  "bit_length n = (if n = 0 then 0 else Suc (bit_length (n div 2)))"

declare bit_length.simps [simp del]

definition round_nat :: "nat \<Rightarrow> nat option" where
  "round_nat n =
     (if bit_length n \<le> 53 then Some n
      else let e = bit_length n - 53;
               q = n div 2 ^ e;
               r = n mod 2 ^ e;
               half = 2 ^ (e - 1);
               q' = (if half < r \<or> (r = half \<and> odd q) then q + 1 else q);
               v = q' * 2 ^ e
           in if 2 ^ 1024 \<le> v then None else Some v)"

definition number_of_int :: "int \<Rightarrow> number" where
  "number_of_int i =
     (if 0 \<le> i
      then (case round_nat (nat i) of Some v \<Rightarrow> Finite (int v) | None \<Rightarrow> PosInfinity)
      else (case round_nat (nat (- i)) of Some v \<Rightarrow> Finite (- int v) | None \<Rightarrow> NegInfinity))"

text \<open>
  \<^verbatim>\<open>Number::toString\<close> in radix 10, for the numbers above. For a positive double \<open>a\<close> the
  standard takes integers \<open>n\<close>, \<open>k\<close>, \<open>s\<close> with \<open>s\<close> of \<open>k\<close> digits and
  \<open>s * 10 ^ (n - k)\<close> rounding to \<open>a\<close>, with \<open>k\<close> as small as possible and, among these, the
  value closest to \<open>a\<close>. It prints the digits of \<open>s\<close> followed by \<open>n - k\<close> zeros when
  \<open>n \<le> 21\<close>, and the exponent form otherwise. An integer below \<open>2 ^ 53\<close> is printed with
  all its decimal digits.
\<close>

definition digit_char :: "nat \<Rightarrow> char" where
  "digit_char d = ''0123456789'' ! d"

fun digits_of_nat :: "nat \<Rightarrow> string" where
  "digits_of_nat n =
     (if n < 10 then [digit_char n] else digits_of_nat (n div 10) @ [digit_char (n mod 10)])"

declare digits_of_nat.simps [simp del]

definition shortest_candidate :: "nat \<Rightarrow> nat \<Rightarrow> nat \<Rightarrow> nat option" where
  "shortest_candidate a d k =
     (let p = 10 ^ (d - k);
          lo = a div p;
          hi = lo + 1;
          lo_ok = (round_nat (lo * p) = Some a);
          hi_ok = (hi < 10 ^ k \<and> round_nat (hi * p) = Some a)
      in if lo_ok \<and> hi_ok
         then (if a - lo * p < hi * p - a then Some lo
               else if hi * p - a < a - lo * p then Some hi
               else if even lo then Some lo else Some hi)
         else if lo_ok then Some lo
         else if hi_ok then Some hi
         else None)"

definition shortest_digits :: "nat \<Rightarrow> nat \<times> nat \<times> nat" where
  "shortest_digits a =
     (let d = length (digits_of_nat a)
      in if round_nat (10 ^ d) = Some a then (d + 1, 1, 1)
         else (case List.find (\<lambda>k. shortest_candidate a d k \<noteq> None) [1..<Suc d] of
                 Some k \<Rightarrow> (case shortest_candidate a d k of Some s \<Rightarrow> (d, k, s) | None \<Rightarrow> (d, d, a))
               | None \<Rightarrow> (d, d, a)))"

definition positive_toString :: "nat \<Rightarrow> string" where
  "positive_toString a =
     (let (n, k, s) = shortest_digits a; ds = digits_of_nat s
      in if n \<le> 21 then ds @ replicate (n - k) (CHR ''0'')
         else if k = 1 then ds @ ''e+'' @ digits_of_nat (n - 1)
         else take 1 ds @ ''.'' @ drop 1 ds @ ''e+'' @ digits_of_nat (n - 1))"

definition Number_toString :: "number \<Rightarrow> string" where
  "Number_toString x =
     (case x of
        NaN \<Rightarrow> ''NaN''
      | PosInfinity \<Rightarrow> ''Infinity''
      | NegInfinity \<Rightarrow> ''-Infinity''
      | Finite i \<Rightarrow>
          if i = 0 then ''0''
          else if i < 0 then CHR ''-'' # positive_toString (nat (- i))
          else positive_toString (nat i))"

text \<open>
  An identifier inside a template literal: the identifier is the double nearest to the
  integer that stands for it, printed by \<^const>\<open>Number_toString\<close>.
\<close>

definition String_of_number :: "int \<Rightarrow> string" where
  "String_of_number i = Number_toString (number_of_int i)"

text \<open>\<^verbatim>\<open>JSON.stringify\<close> of a number: a finite number as above, anything else as \<^verbatim>\<open>null\<close>.\<close>

definition JSON_stringify_number :: "number \<Rightarrow> string" where
  "JSON_stringify_number x = (case x of Finite i \<Rightarrow> Number_toString x | _ \<Rightarrow> ''null'')"

text \<open>
  Object shapes. The parameter types of the source are structural
  (\<^verbatim>\<open>{ name: string; sort_order: number }[]\<close> accepts any object with at least these
  fields), which is what an extensible record scheme expresses.
\<close>

record cat_fields =
  name :: string
  sort_order :: int

record category = cat_fields +
  category_id :: int

record tree_category = cat_fields +
  tree_id :: int

record product_ref =
  product_id :: int

record product_channel_assignment = product_ref +
  channel_id :: number

record product_category_assignment = product_ref +
  category_id :: int

section \<open>Language primitives used by the script\<close>

text \<open>
  \<^verbatim>\<open>Array.prototype.map\<close> with a callback that may throw: the elements are visited in
  order and the first exception aborts the whole call.
\<close>

fun array_map :: "('a \<Rightarrow> error + 'b) \<Rightarrow> 'a list \<Rightarrow> error + 'b list" where
  "array_map f [] = Inr []"
| "array_map f (x # xs) =
     (case f x of
        Inl e \<Rightarrow> Inl e
      | Inr y \<Rightarrow> (case array_map f xs of Inl e \<Rightarrow> Inl e | Inr ys \<Rightarrow> Inr (y # ys)))"

text \<open>
  \<^verbatim>\<open>new Map(entries)\<close> inserts the entries from left to right with \<^verbatim>\<open>set\<close>, so a later
  entry replaces an earlier one with the same key. \<^verbatim>\<open>Map.prototype.get\<close> is application
  of the map, with \<open>None\<close> for \<^verbatim>\<open>undefined\<close>.
\<close>

definition Map_new :: "('k \<times> 'v) list \<Rightarrow> ('k \<rightharpoonup> 'v)" where
  "Map_new entries = foldl (\<lambda>m (k, v). m(k \<mapsto> v)) Map.empty entries"

section \<open>Remapping product-category assignments\<close>

text \<open>
  The arrow function of lines 123-142. \<^verbatim>\<open>!categoryName\<close> holds for \<^verbatim>\<open>undefined\<close> and for
  the empty string; \<^verbatim>\<open>!newCategoryId\<close> holds for \<^verbatim>\<open>undefined\<close> and for \<open>0\<close>.
\<close>

definition remap_assignment ::
  "(int \<rightharpoonup> string) \<Rightarrow> (string \<rightharpoonup> int) \<Rightarrow> product_category_assignment
    \<Rightarrow> error + product_category_assignment" where
  "remap_assignment categoriesMap createdCategoriesMap assign =
     (case categoriesMap (product_category_assignment.category_id assign) of
        None \<Rightarrow> Inl (Error (''Stencil category name not found for category ID ''
                  @ String_of_number (product_category_assignment.category_id assign)))
      | Some categoryName \<Rightarrow>
          if categoryName = []
          then Inl (Error (''Stencil category name not found for category ID ''
                  @ String_of_number (product_category_assignment.category_id assign)))
          else (case createdCategoriesMap categoryName of
                  None \<Rightarrow> Inl (Error (''Catalyst category ID not found for category name ''
                            @ categoryName))
                | Some newCategoryId \<Rightarrow>
                    if newCategoryId = 0
                    then Inl (Error (''Catalyst category ID not found for category name ''
                            @ categoryName))
                    else Inr \<lparr>product_id = product_id assign, category_id = newCategoryId\<rparr>))"

definition buildProductCategoryAssignmentsForNewCategories ::
  "product_category_assignment list \<Rightarrow> (int \<rightharpoonup> string) \<Rightarrow> (string \<rightharpoonup> int)
    \<Rightarrow> error + product_category_assignment list" where
  "buildProductCategoryAssignmentsForNewCategories productCategoryAssignments categoriesMap
       createdCategoriesMap =
     array_map (remap_assignment categoriesMap createdCategoriesMap) productCategoryAssignments"

text \<open>The two lookup tables of lines 211-217.\<close>

definition categoriesMap :: "category list \<Rightarrow> (int \<rightharpoonup> string)" where
  "categoriesMap categories = Map_new (map (\<lambda>cat. (category.category_id cat, name cat)) categories)"

definition createdCategoriesMap :: "category list \<Rightarrow> (string \<rightharpoonup> int)" where
  "createdCategoriesMap createdCategories =
     Map_new (map (\<lambda>cat. (name cat, category.category_id cat)) createdCategories)"

section \<open>Building the categories of the new tree\<close>

text \<open>
  Lines 82-91. The callback destructures \<^verbatim>\<open>name\<close> and \<^verbatim>\<open>sort_order\<close> only and builds a
  fresh object literal of exactly three fields, so the result type has no room for
  anything else the input objects carry.
\<close>

definition buildCategoriesForNewTree :: "'a cat_fields_scheme list \<Rightarrow> int \<Rightarrow> tree_category list" where
  "buildCategoriesForNewTree categories newTreeId =
     map (\<lambda>c. \<lparr>name = name c, sort_order = sort_order c, tree_id = newTreeId\<rparr>) categories"

section \<open>Configuration read from the environment\<close>

text \<open>
  \<^verbatim>\<open>process.env\<close> is a partial map from variable names to strings; an unset variable
  reads as \<^verbatim>\<open>undefined\<close>. \<^verbatim>\<open>assert(v, msg)\<close> throws an \<^verbatim>\<open>AssertionError\<close> carrying
  \<^verbatim>\<open>msg\<close> when \<^verbatim>\<open>v\<close> is falsy: \<^verbatim>\<open>undefined\<close>, the empty string, \<open>0\<close> or \<^verbatim>\<open>NaN\<close>.
\<close>

type_synonym env = "string \<rightharpoonup> string"

text \<open>
  \<^verbatim>\<open>parseInt(string, 10)\<close> as the language standard defines it: leading white space is
  dropped, one sign is read, the longest run of decimal digits that follows is the
  numeral, and whatever comes after that run is ignored. An empty run gives \<^verbatim>\<open>NaN\<close>;
  otherwise the result is the double nearest to the signed value of the run (the standard
  lets an implementation be less precise on runs of more than 20 significant digits; the
  model takes the exact value, as the engines do). The white space of the standard within
  the 8-bit code units is TAB, LF, VT, FF, CR, SP and NBSP.
\<close>

definition is_white_space :: "char \<Rightarrow> bool" where
  "is_white_space c \<longleftrightarrow>
     c \<in> set [CHR 0x09, CHR 0x0A, CHR 0x0B, CHR 0x0C, CHR 0x0D, CHR 0x20, CHR 0xA0]"

definition is_digit :: "char \<Rightarrow> bool" where
  "is_digit c \<longleftrightarrow> c \<in> set ''0123456789''"

definition digit_value :: "char \<Rightarrow> nat" where
  "digit_value c = (of_char c :: nat) - 48"

definition digits_value :: "string \<Rightarrow> nat" where
  "digits_value Z = foldl (\<lambda>acc c. 10 * acc + digit_value c) 0 Z"

definition parseInt10 :: "string \<Rightarrow> number" where
  "parseInt10 string =
     (let S = dropWhile is_white_space string;
          sign = (case S of c # _ \<Rightarrow> if c = CHR ''-'' then - 1 else 1 | [] \<Rightarrow> (1::int));
          S' = (case S of c # rest \<Rightarrow> if c = CHR ''+'' \<or> c = CHR ''-'' then rest else S | [] \<Rightarrow> S);
          Z = takeWhile is_digit S'
      in if Z = [] then NaN else number_of_int (sign * int (digits_value Z)))"

definition getApiOrigin :: "env \<Rightarrow> string" where
  "getApiOrigin e =
     (case e ''BIGCOMMERCE_API_ORIGIN'' of
        None \<Rightarrow> ''https://api.bigcommerce.com''
      | Some v \<Rightarrow> if v = [] then ''https://api.bigcommerce.com'' else v)"

definition getStoreHash :: "env \<Rightarrow> error + string" where
  "getStoreHash e =
     (case e ''BIGCOMMERCE_STORE_HASH'' of
        None \<Rightarrow> Inl (AssertionError ''BIGCOMMERCE_STORE_HASH missing in env'')
      | Some storeHash \<Rightarrow>
          if storeHash = [] then Inl (AssertionError ''BIGCOMMERCE_STORE_HASH missing in env'')
          else Inr storeHash)"

definition getAccessToken :: "env \<Rightarrow> error + string" where
  "getAccessToken e =
     (case e ''BIGCOMMERCE_ACCESS_TOKEN'' of
        None \<Rightarrow> Inl (AssertionError ''BIGCOMMERCE_ACCESS_TOKEN missing in env'')
      | Some accessToken \<Rightarrow>
          if accessToken = [] then Inl (AssertionError ''BIGCOMMERCE_ACCESS_TOKEN missing in env'')
          else Inr accessToken)"

definition getChannelId :: "env \<Rightarrow> error + number" where
  "getChannelId e =
     (case e ''BIGCOMMERCE_CHANNEL_ID'' of
        None \<Rightarrow> Inl (AssertionError ''BIGCOMMERCE_CHANNEL_ID missing in env'')
      | Some channelId \<Rightarrow>
          if channelId = [] then Inl (AssertionError ''BIGCOMMERCE_CHANNEL_ID missing in env'')
          else if parseInt10 channelId = NaN \<or> parseInt10 channelId = Finite 0
          then Inl (AssertionError ''BIGCOMMERCE_CHANNEL_ID must be a number'')
          else Inr (parseInt10 channelId))"

text \<open>
  The reading of "parses as a base-10 integer" that the specification's words suggest,
  kept apart from \<^const>\<open>parseInt10\<close> for comparison: the whole value is one optional
  sign followed by one or more decimal digits, and it denotes a mathematical integer.
\<close>

definition spec_base10_integer :: "string \<Rightarrow> int option" where
  "spec_base10_integer s =
     (let (sign, ds) = (case s of
                          c # rest \<Rightarrow> if c = CHR ''-'' then (- 1, rest)
                                      else if c = CHR ''+'' then (1, rest) else (1::int, s)
                        | [] \<Rightarrow> (1, s))
      in if ds \<noteq> [] \<and> list_all is_digit ds then Some (sign * int (digits_value ds)) else None)"

section \<open>Rewriting product-channel assignments\<close>

text \<open>Lines 164-173: the channel is resolved once, before the list is traversed.\<close>

definition buildProductChannelAssignmentsForNewChannel ::
  "env \<Rightarrow> product_channel_assignment list \<Rightarrow> error + product_channel_assignment list" where
  "buildProductChannelAssignmentsForNewChannel e productChannelAssignments =
     (case getChannelId e of
        Inl err \<Rightarrow> Inl err
      | Inr channelId \<Rightarrow>
          Inr (map (\<lambda>a. \<lparr>product_id = product_id a, channel_id = channelId\<rparr>)
                 productChannelAssignments))"

section \<open>The API client\<close>

text \<open>
  \<^verbatim>\<open>RequestInit\<close> with the fields the script uses (\<open>http_method\<close> is its
  \<^verbatim>\<open>method\<close> field). Its headers are a \<^verbatim>\<open>HeadersInit\<close>: a plain object from header names to
  values, an array of name-value pairs, or a \<^verbatim>\<open>Headers\<close> instance, which keeps its entries
  in internal slots. The values of a caller's plain object are strings (\<open>Str\<close>); a pair
  (\<open>Tuple\<close>) as a value arises only in the object that the client builds, from the spread
  of an array. The network is the list of the calls made to \<^verbatim>\<open>fetch\<close> so far, and
  the remote store is a function \<open>server\<close> from a call to what the caller gets back.
\<close>

datatype header_value = Str string | Tuple "string \<times> string"

datatype HeadersInit =
  Record "string \<rightharpoonup> header_value"
| Pairs "(string \<times> string) list"
| Headers_instance "(string \<times> string) list"

record RequestInit =
  headers :: "HeadersInit option"
  http_method :: "string option"
  body :: "string option"

type_synonym fetch_call = "string \<times> RequestInit"

type_synonym network = "fetch_call list"


definition fetch :: "(fetch_call \<Rightarrow> 'r) \<Rightarrow> string \<Rightarrow> RequestInit \<Rightarrow> network \<Rightarrow> 'r \<times> network" where
  "fetch server input init net = (server (input, init), net @ [(input, init)])"

text \<open>
  The object spread \<^verbatim>\<open>...headers\<close> copies the own enumerable properties of its operand:
  the entries of a plain object; for an array of pairs its indices \<open>"0"\<close>, \<open>"1"\<close>, ...,
  each with the pair stored there; nothing for a \<^verbatim>\<open>Headers\<close> instance.
\<close>

definition spread :: "HeadersInit \<Rightarrow> (string \<rightharpoonup> header_value)" where
  "spread h =
     (case h of
        Record m \<Rightarrow> m
      | Pairs ps \<Rightarrow> map_of (zip (map digits_of_nat [0..<length ps]) (map Tuple ps))
      | Headers_instance hs \<Rightarrow> Map.empty)"

definition default_headers :: "string \<Rightarrow> (string \<rightharpoonup> header_value)" where
  "default_headers accessToken =
     [''accept'' \<mapsto> Str ''application/json'',
      ''content-type'' \<mapsto> Str ''application/json'',
      ''x-auth-token'' \<mapsto> Str accessToken]"

text \<open>
  Lines 39-55. The headers default to the empty object when the options have none. The
  spread comes after the three defaults, so the headers passed on are the right-biased
  union of the defaults and what the spread copies; \<^verbatim>\<open>...rest\<close> carries every other field of
  the options over.
\<close>

definition bigcommerce ::
  "(fetch_call \<Rightarrow> 'r) \<Rightarrow> env \<Rightarrow> string \<Rightarrow> RequestInit \<Rightarrow> network \<Rightarrow> (error + 'r) \<times> network" where
  "bigcommerce server e path options net =
     (let hdrs = (case headers options of None \<Rightarrow> Record Map.empty | Some h \<Rightarrow> h);
          apiOrigin = getApiOrigin e
      in case getStoreHash e of
           Inl err \<Rightarrow> (Inl err, net)
         | Inr storeHash \<Rightarrow>
             (case getAccessToken e of
                Inl err \<Rightarrow> (Inl err, net)
              | Inr accessToken \<Rightarrow>
                  (let (response, net') =
                     fetch server (apiOrigin @ ''/stores/'' @ storeHash @ path)
                       (options\<lparr>headers := Some (Record (default_headers accessToken ++ spread hdrs))\<rparr>)
                       net
                   in (Inr response, net'))))"

text \<open>
  Lines 57-71, the first step of the script (line 185). The body is
  \<^verbatim>\<open>JSON.stringify([{ name: "Catalyst catalog tree", channels: [channelId] }])\<close>; the
  value returned stands for the promise of \<^verbatim>\<open>response.json()\<close>.
\<close>

definition tree_body :: "number \<Rightarrow> string" where
  \<open>tree_body channelId =
     ''[{"name":"Catalyst catalog tree","channels":['' @ JSON_stringify_number channelId @ '']}]''\<close>

definition createCategoryTree ::
  "(fetch_call \<Rightarrow> 'r) \<Rightarrow> env \<Rightarrow> network \<Rightarrow> (error + 'r) \<times> network" where
  "createCategoryTree server e net =
     (case getChannelId e of
        Inl err \<Rightarrow> (Inl err, net)
      | Inr channelId \<Rightarrow>
          bigcommerce server e ''/v3/catalog/trees''
            \<lparr>headers = None, http_method = Some ''PUT'', body = Some (tree_body channelId)\<rparr> net)"

section \<open>Facts about the primitives\<close>

subsection \<open>Rounding to a double and printing it\<close>

lemma bit_length_0 [simp]: "bit_length 0 = 0"
  by (simp add: bit_length.simps [of 0])

lemma bit_length_le: "n < 2 ^ k \<Longrightarrow> bit_length n \<le> k"
proof (induction k arbitrary: n)
  case 0
  then show ?case by (simp add: bit_length.simps [of n])
next
  case (Suc k)
  show ?case
  proof (cases "n = 0")
    case True
    then show ?thesis by (simp add: bit_length.simps [of n])
  next
    case False
    from Suc.prems have "n div 2 < 2 ^ k" by simp
    then have "bit_length (n div 2) \<le> k" by (rule Suc.IH)
    with False show ?thesis by (simp add: bit_length.simps [of n])
  qed
qed

lemma bit_length_lower: "0 < n \<Longrightarrow> 2 ^ (bit_length n - 1) \<le> n"
proof (induction n rule: bit_length.induct)
  case (1 n)
  show ?case
  proof (cases "n div 2 = 0")
    case True
    with "1.prems" have "bit_length n = 1"
      by (simp add: bit_length.simps [of n] bit_length.simps [of 0])
    with "1.prems" show ?thesis by simp
  next
    case False
    with "1.IH" "1.prems" have ih: "2 ^ (bit_length (n div 2) - 1) \<le> n div 2" by simp
    from False have pos: "0 < bit_length (n div 2)" by (simp add: bit_length.simps [of "n div 2"])
    from "1.prems" have bl: "bit_length n = Suc (bit_length (n div 2))"
      by (simp add: bit_length.simps [of n])
    from pos have "2 ^ (bit_length n - 1) = 2 * (2::nat) ^ (bit_length (n div 2) - 1)"
      by (cases "bit_length (n div 2)") (simp_all add: bl)
    also from ih have "\<dots> \<le> 2 * (n div 2)" by simp
    also have "\<dots> \<le> n" by simp
    finally show ?thesis .
  qed
qed

lemma round_nat_safe: "n < 2 ^ 53 \<Longrightarrow> round_nat n = Some n"
  by (simp add: round_nat_def bit_length_le)

lemma round_nat_large:
  assumes "53 < bit_length n" and "round_nat n = Some v"
  shows "2 ^ 53 \<le> v"
proof -
  let ?e = "bit_length n - 53"
  let ?q = "n div 2 ^ ?e"
  from assms(1) have npos: "0 < n" by (cases "n = 0") (simp_all add: bit_length.simps [of n])
  from assms(1) have e: "1 \<le> ?e" by simp
  from assms(1) have split: "bit_length n - 1 = 52 + ?e" by simp
  have "(2::nat) ^ (bit_length n - 1) = 2 ^ 52 * 2 ^ ?e"
    by (simp only: split power_add)
  with bit_length_lower [OF npos] have "(2::nat) ^ 52 * 2 ^ ?e \<le> n"
    by simp
  then have q: "(2::nat) ^ 52 \<le> ?q"
    by (simp add: less_eq_div_iff_mult_less_eq)
  define q' where "q' = (if 2 ^ (?e - 1) < n mod 2 ^ ?e \<or> (n mod 2 ^ ?e = 2 ^ (?e - 1) \<and> odd ?q)
      then ?q + 1 else ?q)"
  have q': "?q \<le> q'" by (simp add: q'_def)
  from assms have v: "v = q' * 2 ^ ?e"
    by (auto simp: round_nat_def Let_def q'_def split: if_splits)
  from q q' have "(2::nat) ^ 52 \<le> q'" by simp
  moreover from e have "(2::nat) ^ 1 \<le> 2 ^ ?e" by (intro power_increasing) simp_all
  ultimately have "(2::nat) ^ 52 * 2 ^ 1 \<le> q' * 2 ^ ?e" by (rule mult_le_mono)
  then show ?thesis by (simp add: v)
qed

lemma round_nat_above:
  assumes "a < 2 ^ 53" and "a < m"
  shows "round_nat m \<noteq> Some a"
proof
  assume r: "round_nat m = Some a"
  show False
  proof (cases "bit_length m \<le> 53")
    case True
    with r assms(2) show False by (simp add: round_nat_def)
  next
    case False
    then have "53 < bit_length m" by simp
    from round_nat_large [OF this r] assms(1) show False by simp
  qed
qed

lemma number_of_int_safe: "\<bar>i\<bar> < 2 ^ 53 \<Longrightarrow> number_of_int i = Finite i"
proof -
  assume b: "\<bar>i\<bar> < 2 ^ 53"
  show ?thesis
  proof (cases "0 \<le> i")
    case True
    with b have "nat i < 2 ^ 53" by (simp add: nat_less_iff)
    then have "round_nat (nat i) = Some (nat i)" by (rule round_nat_safe)
    with True show ?thesis by (simp add: number_of_int_def)
  next
    case False
    with b have "nat (- i) < 2 ^ 53" by (simp add: nat_less_iff)
    then have "round_nat (nat (- i)) = Some (nat (- i))" by (rule round_nat_safe)
    with False show ?thesis by (simp add: number_of_int_def)
  qed
qed

lemma digits_of_nat_not_Nil: "digits_of_nat n \<noteq> []"
  by (simp add: digits_of_nat.simps [of n])

lemma digits_of_nat_upper: "n < 10 ^ length (digits_of_nat n)"
proof (induction n rule: digits_of_nat.induct)
  case (1 n)
  show ?case
  proof (cases "n < 10")
    case True
    then show ?thesis by (simp add: digits_of_nat.simps [of n])
  next
    case False
    with 1 have "n div 10 < 10 ^ length (digits_of_nat (n div 10))" by simp
    then have "n < 10 * 10 ^ length (digits_of_nat (n div 10))" by simp
    with False show ?thesis by (simp add: digits_of_nat.simps [of n])
  qed
qed

lemma digits_of_nat_lower: "0 < n \<Longrightarrow> 10 ^ (length (digits_of_nat n) - 1) \<le> n"
proof (induction n rule: digits_of_nat.induct)
  case (1 n)
  show ?case
  proof (cases "n < 10")
    case True
    with "1.prems" show ?thesis by (simp add: digits_of_nat.simps [of n])
  next
    case False
    let ?l = "length (digits_of_nat (n div 10))"
    from False have "0 < n div 10" by simp
    with 1 False have ih: "10 ^ (?l - 1) \<le> n div 10" by simp
    have "0 < ?l" using digits_of_nat_not_Nil [of "n div 10"] by simp
    then have "(10::nat) ^ ?l = 10 * 10 ^ (?l - 1)" by (cases ?l) simp_all
    also from ih have "\<dots> \<le> 10 * (n div 10)" by simp
    also have "\<dots> \<le> n" by simp
    finally show ?thesis using False by (simp add: digits_of_nat.simps [of n])
  qed
qed

lemma digits_of_nat_times_10: "0 < m \<Longrightarrow> digits_of_nat (m * 10) = digits_of_nat m @ ''0''"
  by (simp add: digits_of_nat.simps [of "m * 10"] digit_char_def)

lemma digits_of_nat_times_power:
  "0 < m \<Longrightarrow> digits_of_nat (m * 10 ^ t) = digits_of_nat m @ replicate t (CHR ''0'')"
proof (induction t)
  case 0
  show ?case by simp
next
  case (Suc t)
  from Suc.prems have "0 < m * 10 ^ t" by simp
  then have "digits_of_nat (m * 10 ^ t * 10) = digits_of_nat (m * 10 ^ t) @ ''0''"
    by (rule digits_of_nat_times_10)
  also have "\<dots> = digits_of_nat m @ replicate t (CHR ''0'') @ ''0''"
    using Suc by simp
  also have "replicate t (CHR ''0'') @ ''0'' = replicate (Suc t) (CHR ''0'')"
    by (simp add: replicate_append_same)
  also have "m * 10 ^ t * 10 = m * 10 ^ Suc t" by simp
  finally show ?case .
qed

lemma find_SomeD: "List.find P xs = Some x \<Longrightarrow> x \<in> set xs \<and> P x"
  by (induction xs) (auto split: if_splits)

lemma shortest_candidate_safe:
  assumes "a < 2 ^ 53"
  shows "shortest_candidate a d k = (if 10 ^ (d - k) dvd a then Some (a div 10 ^ (d - k)) else None)"
proof -
  let ?p = "(10::nat) ^ (d - k)"
  let ?lo = "a div ?p"
  have lo_le: "?lo * ?p \<le> a" by simp
  from lo_le assms have "?lo * ?p < 2 ^ 53" by (rule le_less_trans)
  then have lo: "round_nat (?lo * ?p) = Some (?lo * ?p)" by (rule round_nat_safe)
  have "a < (?lo + 1) * ?p"
    using div_less_iff_less_mult [of ?p a "?lo + 1"] by simp
  with assms have hi: "round_nat ((?lo + 1) * ?p) \<noteq> Some a" by (rule round_nat_above)
  have dvd: "?lo * ?p = a \<longleftrightarrow> ?p dvd a"
  proof
    assume "?lo * ?p = a"
    then show "?p dvd a" by (metis dvd_triv_right)
  next
    assume "?p dvd a"
    then show "?lo * ?p = a" by simp
  qed
  from lo hi dvd show ?thesis
    by (simp add: shortest_candidate_def Let_def)
qed

lemma shortest_digits_safe:
  assumes "0 < a" and "a < 2 ^ 53"
  shows "\<exists>k. 1 \<le> k \<and> k \<le> length (digits_of_nat a) \<and> 10 ^ (length (digits_of_nat a) - k) dvd a
    \<and> shortest_digits a
        = (length (digits_of_nat a), k, a div 10 ^ (length (digits_of_nat a) - k))"
proof -
  let ?d = "length (digits_of_nat a)"
  let ?P = "\<lambda>k. shortest_candidate a ?d k \<noteq> None"
  have P: "?P k \<longleftrightarrow> 10 ^ (?d - k) dvd a" for k
    unfolding shortest_candidate_safe [OF assms(2)] by simp
  have dpos: "1 \<le> ?d" using digits_of_nat_not_Nil [of a] by (cases "digits_of_nat a") simp_all
  from digits_of_nat_upper [of a] have top: "round_nat (10 ^ ?d) \<noteq> Some a"
    using assms(2) by (intro round_nat_above)
  have mem: "?d \<in> set [1..<Suc ?d]" using dpos by simp
  have "?P ?d" unfolding P by simp
  with mem have "List.find ?P [1..<Suc ?d] \<noteq> None"
    unfolding find_None_iff by blast
  then obtain k where f: "List.find ?P [1..<Suc ?d] = Some k"
    unfolding not_None_eq ..
  then have "k \<in> set [1..<Suc ?d] \<and> ?P k" by (rule find_SomeD)
  then have k: "k \<in> set [1..<Suc ?d]" and Pk: "?P k" by blast+
  from Pk have dv: "10 ^ (?d - k) dvd a" unfolding P .
  have sc: "shortest_candidate a ?d k = Some (a div 10 ^ (?d - k))"
    using dv by (simp add: shortest_candidate_safe [OF assms(2)])
  have "shortest_digits a = (?d, k, a div 10 ^ (?d - k))"
    unfolding shortest_digits_def Let_def using top by (simp only: f sc if_False option.case)
  moreover from k have "1 \<le> k \<and> k \<le> ?d" by auto
  ultimately show ?thesis using dv by blast
qed

lemma positive_toString_safe:
  assumes "0 < a" and "a < 2 ^ 53"
  shows "positive_toString a = digits_of_nat a"
proof -
  let ?d = "length (digits_of_nat a)"
  from shortest_digits_safe [OF assms] obtain k where k: "1 \<le> k" "k \<le> ?d"
    and dv: "10 ^ (?d - k) dvd a"
    and sd: "shortest_digits a = (?d, k, a div 10 ^ (?d - k))"
    by blast
  let ?s = "a div 10 ^ (?d - k)"
  from dv have a: "a = ?s * 10 ^ (?d - k)" by simp
  with assms(1) have spos: "0 < ?s" by (cases "?s = 0") simp_all
  have "(10::nat) ^ (?d - 1) \<le> a" using assms(1) by (rule digits_of_nat_lower)
  also have "a < 10 ^ 16" using assms(2) by simp
  finally have lt: "(10::nat) ^ (?d - 1) < 10 ^ 16" .
  have "(1::nat) < 10" by simp
  from this lt have "?d - 1 < 16" by (rule power_less_imp_less_exp)
  then have d21: "?d \<le> 21" by simp
  have "digits_of_nat (?s * 10 ^ (?d - k)) = digits_of_nat ?s @ replicate (?d - k) (CHR ''0'')"
    using spos by (rule digits_of_nat_times_power)
  with a have "digits_of_nat ?s @ replicate (?d - k) (CHR ''0'') = digits_of_nat a" by simp
  with d21 show ?thesis
    by (simp add: positive_toString_def sd)
qed

lemma String_of_number_safe:
  assumes "\<bar>i\<bar> < 2 ^ 53"
  shows "String_of_number i
    = (if i < 0 then CHR ''-'' # digits_of_nat (nat (- i)) else digits_of_nat (nat i))"
proof -
  from assms have n: "number_of_int i = Finite i" by (rule number_of_int_safe)
  consider (neg) "i < 0" | (zero) "i = 0" | (pos) "0 < i" by linarith
  then show ?thesis
  proof cases
    case neg
    with assms have "0 < nat (- i)" "nat (- i) < 2 ^ 53" by (simp_all add: nat_less_iff)
    then have "positive_toString (nat (- i)) = digits_of_nat (nat (- i))"
      by (rule positive_toString_safe)
    with neg show ?thesis by (simp add: String_of_number_def n Number_toString_def)
  next
    case zero
    with n have "number_of_int 0 = Finite 0" by simp
    with zero show ?thesis
      by (simp add: String_of_number_def Number_toString_def digits_of_nat.simps [of 0] digit_char_def)
  next
    case pos
    with assms have "0 < nat i" "nat i < 2 ^ 53" by (simp_all add: nat_less_iff)
    then have "positive_toString (nat i) = digits_of_nat (nat i)"
      by (rule positive_toString_safe)
    with pos show ?thesis by (simp add: String_of_number_def n Number_toString_def)
  qed
qed

lemma String_of_number_5: "String_of_number 5 = ''5''"
  by (simp add: String_of_number_safe digits_of_nat.simps digit_char_def)

lemma String_of_number_999: "String_of_number 999 = ''999''"
  by (simp add: String_of_number_safe digits_of_nat.simps digit_char_def)

subsection \<open>Mapping with a callback that may throw, and map construction\<close>

lemma array_map_Inr_D:
  "array_map f xs = Inr ys \<Longrightarrow> list_all2 (\<lambda>x y. f x = Inr y) xs ys"
  by (induction xs arbitrary: ys) (auto split: sum.splits)

lemma array_map_all_Inr:
  "(\<forall>x \<in> set xs. f x = Inr (g x)) \<Longrightarrow> array_map f xs = Inr (map g xs)"
  by (induction xs) auto

lemma array_map_first_failure:
  "(\<forall>x \<in> set pre. \<exists>y. f x = Inr y) \<Longrightarrow> f a = Inl e \<Longrightarrow> array_map f (pre @ a # post) = Inl e"
  by (induction pre) (auto split: sum.splits)

lemma array_map_some_failure:
  "a \<in> set xs \<Longrightarrow> f a = Inl e \<Longrightarrow> \<exists>e'. array_map f xs = Inl e'"
  by (induction xs) (auto split: sum.splits)

lemma array_map_failure_origin:
  "array_map f xs = Inl e \<Longrightarrow> \<exists>a \<in> set xs. f a = Inl e"
  by (induction xs) (auto split: sum.splits)

lemma Map_new_snoc: "Map_new (es @ [(k, v)]) = (Map_new es)(k \<mapsto> v)"
  by (simp add: Map_new_def)

lemma Map_new_last_wins:
  "k \<notin> fst ` set post \<Longrightarrow> Map_new (pre @ (k, v) # post) k = Some v"
proof (induction post rule: rev_induct)
  case Nil
  show ?case by (simp add: Map_new_def)
next
  case (snoc e post)
  obtain k' v' where e: "e = (k', v')" by (cases e)
  from snoc.prems have "k' \<noteq> k" and "k \<notin> fst ` set post" by (auto simp: e)
  with snoc.IH have "Map_new (pre @ (k, v) # post) k = Some v" by simp
  moreover have "Map_new (pre @ (k, v) # post @ [e]) = (Map_new (pre @ (k, v) # post))(k' \<mapsto> v')"
    using Map_new_snoc [of "pre @ (k, v) # post" k' v'] by (simp add: e)
  ultimately show ?case using \<open>k' \<noteq> k\<close> by simp
qed

subsection \<open>The remapping callback\<close>

lemma remap_assignment_Inr:
  "remap_assignment m1 m2 a = Inr b \<longleftrightarrow>
     (\<exists>n c. m1 (product_category_assignment.category_id a) = Some n \<and> n \<noteq> [] \<and> m2 n = Some c \<and> c \<noteq> 0
        \<and> b = \<lparr>product_id = product_id a, category_id = c\<rparr>)"
  by (auto simp: remap_assignment_def split: option.splits)

lemma remap_assignment_Inl_Error:
  "remap_assignment m1 m2 a = Inl e \<Longrightarrow> \<exists>msg. e = Error msg"
  by (auto simp: remap_assignment_def split: option.splits if_splits)

lemma first_failure_build:
  "(\<forall>x \<in> set pre. \<exists>y. remap_assignment m1 m2 x = Inr y) \<Longrightarrow> remap_assignment m1 m2 a = Inl e
     \<Longrightarrow> buildProductCategoryAssignmentsForNewCategories (pre @ a # post) m1 m2 = Inl e"
  unfolding buildProductCategoryAssignmentsForNewCategories_def
  by (rule array_map_first_failure [where f = "remap_assignment m1 m2"])

lemma some_failure_build:
  assumes "a \<in> set xs" and "remap_assignment m1 m2 a = Inl e"
  shows "\<exists>msg. buildProductCategoryAssignmentsForNewCategories xs m1 m2 = Inl (Error msg)"
proof -
  from array_map_some_failure [where f = "remap_assignment m1 m2", OF assms]
  obtain e' where e': "array_map (remap_assignment m1 m2) xs = Inl e'" ..
  from array_map_failure_origin [where f = "remap_assignment m1 m2", OF e']
  obtain b where "remap_assignment m1 m2 b = Inl e'" by (elim bexE)
  from remap_assignment_Inl_Error [OF this]
  obtain msg where "e' = Error msg" ..
  with e' show ?thesis
    by (simp add: buildProductCategoryAssignmentsForNewCategories_def)
qed

lemma createdCategoriesMap_last_wins:
  assumes "\<forall>d \<in> set post. name d \<noteq> name c"
  shows "createdCategoriesMap (pre @ c # post) (name c) = Some (category.category_id c)"
proof -
  let ?f = "\<lambda>cat. (name cat, category.category_id cat)"
  from assms have "name c \<notin> fst ` set (map ?f post)" by auto
  then have "Map_new (map ?f pre @ (name c, category.category_id c) # map ?f post) (name c)
      = Some (category.category_id c)"
    by (rule Map_new_last_wins)
  then show ?thesis by (simp add: createdCategoriesMap_def)
qed

subsection \<open>The integer parser\<close>

lemmas parse_defs = parseInt10_def is_white_space_def is_digit_def digits_value_def digit_value_def

lemma digit_not_space: "is_digit c \<Longrightarrow> \<not> is_white_space c"
  by (auto simp: is_digit_def is_white_space_def)

lemma digit_not_sign: "is_digit c \<Longrightarrow> c \<noteq> CHR ''+'' \<and> c \<noteq> CHR ''-''"
  by (auto simp: is_digit_def)

lemma sign_not_space: "\<not> is_white_space CHR ''+''" "\<not> is_white_space CHR ''-''"
  by (simp_all add: is_white_space_def)

lemma dropWhile_spaces:
  "list_all is_white_space ws \<Longrightarrow> \<not> is_white_space c \<Longrightarrow>
     dropWhile is_white_space (ws @ c # r) = c # r"
  by (induction ws) auto

lemma takeWhile_digits:
  "list_all is_digit ds \<Longrightarrow> rest = [] \<or> \<not> is_digit (hd rest) \<Longrightarrow>
     takeWhile is_digit (ds @ rest) = ds"
proof (induction ds)
  case Nil
  then show ?case by (cases rest) auto
next
  case (Cons d ds)
  then show ?case by simp
qed

lemma parseInt10_unsigned:
  assumes "list_all is_white_space ws" and "ds \<noteq> []" and "list_all is_digit ds"
    and "rest = [] \<or> \<not> is_digit (hd rest)"
  shows "parseInt10 (ws @ ds @ rest) = number_of_int (int (digits_value ds))"
proof -
  from assms(2) obtain d ds' where ds: "ds = d # ds'" by (cases ds) auto
  with assms(3) have d: "is_digit d" by simp
  have "dropWhile is_white_space (ws @ d # ds' @ rest) = d # ds' @ rest"
    using assms(1) digit_not_space [OF d] by (rule dropWhile_spaces)
  moreover have "takeWhile is_digit (ds @ rest) = ds"
    using assms(3,4) by (rule takeWhile_digits)
  ultimately show ?thesis
    using digit_not_sign [OF d] by (simp add: parseInt10_def ds)
qed

lemma parseInt10_plus:
  assumes "list_all is_white_space ws" and "ds \<noteq> []" and "list_all is_digit ds"
    and "rest = [] \<or> \<not> is_digit (hd rest)"
  shows "parseInt10 (ws @ CHR ''+'' # ds @ rest) = number_of_int (int (digits_value ds))"
proof -
  have "dropWhile is_white_space (ws @ CHR ''+'' # ds @ rest) = CHR ''+'' # ds @ rest"
    using assms(1) sign_not_space(1) by (rule dropWhile_spaces)
  moreover have "takeWhile is_digit (ds @ rest) = ds"
    using assms(3,4) by (rule takeWhile_digits)
  ultimately show ?thesis
    using assms(2) by (simp add: parseInt10_def)
qed

lemma parseInt10_minus:
  assumes "list_all is_white_space ws" and "ds \<noteq> []" and "list_all is_digit ds"
    and "rest = [] \<or> \<not> is_digit (hd rest)"
  shows "parseInt10 (ws @ CHR ''-'' # ds @ rest) = number_of_int (- int (digits_value ds))"
proof -
  have "dropWhile is_white_space (ws @ CHR ''-'' # ds @ rest) = CHR ''-'' # ds @ rest"
    using assms(1) sign_not_space(2) by (rule dropWhile_spaces)
  moreover have "takeWhile is_digit (ds @ rest) = ds"
    using assms(3,4) by (rule takeWhile_digits)
  ultimately show ?thesis
    using assms(2) by (simp add: parseInt10_def)
qed

text \<open>
  On a value that is a base-10 integer as a whole, the parser returns the double nearest
  to that integer, which is the integer itself below \<open>2 ^ 53\<close>.
\<close>

lemma spec_base10_integer_parseInt10:
  assumes "spec_base10_integer s = Some n"
  shows "parseInt10 s = number_of_int n"
proof (cases s)
  case Nil
  with assms show ?thesis by (simp add: spec_base10_integer_def)
next
  case (Cons c r)
  consider (minus) "c = CHR ''-''" | (plus) "c = CHR ''+''" | (none) "c \<noteq> CHR ''-''" "c \<noteq> CHR ''+''"
    by blast
  then show ?thesis
  proof cases
    case minus
    with assms Cons have "r \<noteq> []" "list_all is_digit r" "n = - int (digits_value r)"
      by (auto simp: spec_base10_integer_def split: if_splits)
    with parseInt10_minus [of "[]" r "[]"] show ?thesis by (simp add: Cons minus)
  next
    case plus
    with assms Cons have "r \<noteq> []" "list_all is_digit r" "n = int (digits_value r)"
      by (auto simp: spec_base10_integer_def split: if_splits)
    with parseInt10_plus [of "[]" r "[]"] show ?thesis by (simp add: Cons plus)
  next
    case none
    with assms Cons have "list_all is_digit s" "n = int (digits_value s)"
      by (auto simp: spec_base10_integer_def split: if_splits)
    with parseInt10_unsigned [of "[]" s "[]"] show ?thesis by (simp add: Cons)
  qed
qed

lemma takeWhile_no_digit: "\<not> list_ex is_digit s \<Longrightarrow> takeWhile is_digit s = []"
  by (cases s) auto

lemma no_digit_dropWhile: "\<not> list_ex is_digit s \<Longrightarrow> \<not> list_ex is_digit (dropWhile P s)"
  by (induction s) auto

lemma parseInt10_no_digit:
  assumes "\<not> list_ex is_digit s"
  shows "parseInt10 s = NaN"
proof -
  let ?S = "dropWhile is_white_space s"
  from assms have nd: "\<not> list_ex is_digit ?S" by (rule no_digit_dropWhile)
  show ?thesis
  proof (cases ?S)
    case Nil
    show ?thesis unfolding parseInt10_def Let_def Nil by simp
  next
    case (Cons c r)
    with nd have "\<not> list_ex is_digit r" and "\<not> is_digit c" by auto
    then have "takeWhile is_digit r = []" and "takeWhile is_digit (c # r) = []"
      by (simp_all add: takeWhile_no_digit)
    then show ?thesis unfolding parseInt10_def Let_def Cons by simp
  qed
qed

subsection \<open>The channel identifier\<close>

lemma parseInt10_Nil: "parseInt10 [] = NaN"
  by (simp add: parseInt10_def)

lemma getChannelId_Inr:
  "e ''BIGCOMMERCE_CHANNEL_ID'' = Some s \<Longrightarrow> parseInt10 s \<noteq> NaN \<Longrightarrow> parseInt10 s \<noteq> Finite 0
     \<Longrightarrow> getChannelId e = Inr (parseInt10 s)"
  by (auto simp: getChannelId_def parseInt10_Nil)

lemma getChannelId_missing:
  "e ''BIGCOMMERCE_CHANNEL_ID'' = None \<or> e ''BIGCOMMERCE_CHANNEL_ID'' = Some []
     \<Longrightarrow> getChannelId e = Inl (AssertionError ''BIGCOMMERCE_CHANNEL_ID missing in env'')"
  by (auto simp: getChannelId_def)

lemma getChannelId_not_a_number:
  "e ''BIGCOMMERCE_CHANNEL_ID'' = Some s \<Longrightarrow> s \<noteq> [] \<Longrightarrow> parseInt10 s = NaN \<or> parseInt10 s = Finite 0
     \<Longrightarrow> getChannelId e = Inl (AssertionError ''BIGCOMMERCE_CHANNEL_ID must be a number'')"
  by (auto simp: getChannelId_def)

lemma createCategoryTree_config_error:
  "getChannelId e = Inl err \<Longrightarrow> createCategoryTree server e net = (Inl err, net)"
  by (simp add: createCategoryTree_def)

text \<open>
  A value that is a base-10 integer other than 0 and below \<open>2 ^ 53\<close> in magnitude is
  returned as it is; an unset or empty value, a value without any digit and a value that
  parses to 0 make the first step of the script throw before it makes a request.
\<close>

lemma getChannelId_base10_integer:
  assumes "e ''BIGCOMMERCE_CHANNEL_ID'' = Some s" and "spec_base10_integer s = Some n"
    and "n \<noteq> 0" and "\<bar>n\<bar> < 2 ^ 53"
  shows "getChannelId e = Inr (Finite n)"
proof -
  from assms(2) have "parseInt10 s = number_of_int n" by (rule spec_base10_integer_parseInt10)
  also from assms(4) have "\<dots> = Finite n" by (rule number_of_int_safe)
  finally have p: "parseInt10 s = Finite n" .
  with assms(3) have "parseInt10 s \<noteq> NaN" "parseInt10 s \<noteq> Finite 0" by simp_all
  with assms(1) have "getChannelId e = Inr (parseInt10 s)" by (rule getChannelId_Inr)
  with p show ?thesis by simp
qed

lemma config_error_before_any_request:
  assumes "e ''BIGCOMMERCE_CHANNEL_ID'' = None \<or> e ''BIGCOMMERCE_CHANNEL_ID'' = Some []
    \<or> (e ''BIGCOMMERCE_CHANNEL_ID'' = Some s
         \<and> (\<not> list_ex is_digit s \<or> parseInt10 s = NaN \<or> parseInt10 s = Finite 0))"
  shows "\<exists>msg. getChannelId e = Inl (AssertionError msg)
    \<and> createCategoryTree server e net = (Inl (AssertionError msg), net)"
proof -
  from assms parseInt10_no_digit [of s]
  have "e ''BIGCOMMERCE_CHANNEL_ID'' = None \<or> e ''BIGCOMMERCE_CHANNEL_ID'' = Some []
    \<or> (e ''BIGCOMMERCE_CHANNEL_ID'' = Some s \<and> s \<noteq> []
         \<and> (parseInt10 s = NaN \<or> parseInt10 s = Finite 0))"
    by blast
  then have "\<exists>msg. getChannelId e = Inl (AssertionError msg)"
    using getChannelId_missing [of e] getChannelId_not_a_number [of e s] by blast
  then obtain msg where m: "getChannelId e = Inl (AssertionError msg)" ..
  then have "createCategoryTree server e net = (Inl (AssertionError msg), net)"
    by (rule createCategoryTree_config_error)
  with m show ?thesis by blast
qed

subsection \<open>Decimal digits\<close>

lemma below_ten:
  "(d::nat) < 10 \<Longrightarrow> d = 0 \<or> d = 1 \<or> d = 2 \<or> d = 3 \<or> d = 4 \<or> d = 5 \<or> d = 6 \<or> d = 7 \<or> d = 8 \<or> d = 9"
  by presburger

lemma digit_char_is_digit: "d < 10 \<Longrightarrow> is_digit (digit_char d)"
  by (drule below_ten) (elim disjE; simp add: is_digit_def digit_char_def)

lemma digit_value_digit_char: "d < 10 \<Longrightarrow> digit_value (digit_char d) = d"
  by (drule below_ten) (elim disjE; simp add: digit_value_def digit_char_def)

lemma digits_value_snoc: "digits_value (ds @ [c]) = 10 * digits_value ds + digit_value c"
  by (simp add: digits_value_def)

lemma digits_of_nat_props:
  "digits_of_nat n \<noteq> [] \<and> list_all is_digit (digits_of_nat n) \<and> digits_value (digits_of_nat n) = n"
proof (induction n rule: digits_of_nat.induct)
  case (1 n)
  show ?case
  proof (cases "n < 10")
    case True
    then show ?thesis
      by (simp add: digits_of_nat.simps [of n] digit_char_is_digit digit_value_digit_char
          digits_value_def)
  next
    case False
    with 1 have ih: "digits_of_nat (n div 10) \<noteq> []" "list_all is_digit (digits_of_nat (n div 10))"
      "digits_value (digits_of_nat (n div 10)) = n div 10" by simp_all
    have m: "n mod 10 < 10" by simp
    from False ih m show ?thesis
      by (simp add: digits_of_nat.simps [of n] digits_value_snoc digit_char_is_digit
          digit_value_digit_char)
  qed
qed

text \<open>
  An identifier below \<open>2 ^ 53\<close> in magnitude is printed with all its decimal digits
  (\<open>String_of_number_safe\<close>), and the parser reads the identifier back from them.
\<close>

lemma parseInt10_String_of_number:
  assumes "\<bar>i\<bar> < 2 ^ 53"
  shows "parseInt10 (String_of_number i) = Finite i"
proof (cases "i < 0")
  case True
  let ?ds = "digits_of_nat (nat (- i))"
  have p: "?ds \<noteq> [] \<and> list_all is_digit ?ds \<and> digits_value ?ds = nat (- i)"
    by (rule digits_of_nat_props)
  have ne: "?ds \<noteq> []" using p by (rule conjunct1)
  have dg: "list_all is_digit ?ds" using p by (elim conjE)
  have v: "digits_value ?ds = nat (- i)" using p by (elim conjE)
  have ws: "list_all is_white_space []" by simp
  have r: "([]::string) = [] \<or> \<not> is_digit (hd [])" by simp
  have "parseInt10 ([] @ CHR ''-'' # ?ds @ []) = number_of_int (- int (digits_value ?ds))"
    using ws ne dg r by (rule parseInt10_minus)
  then have "parseInt10 (CHR ''-'' # ?ds) = number_of_int (- int (nat (- i)))"
    by (simp only: v append_Nil append_Nil2)
  moreover from True have "- int (nat (- i)) = i" by simp
  moreover from True assms have "String_of_number i = CHR ''-'' # ?ds"
    by (simp add: String_of_number_safe)
  ultimately have "parseInt10 (String_of_number i) = number_of_int i" by simp
  with assms show ?thesis by (simp add: number_of_int_safe)
next
  case False
  let ?ds = "digits_of_nat (nat i)"
  have p: "?ds \<noteq> [] \<and> list_all is_digit ?ds \<and> digits_value ?ds = nat i"
    by (rule digits_of_nat_props)
  have ne: "?ds \<noteq> []" using p by (rule conjunct1)
  have dg: "list_all is_digit ?ds" using p by (elim conjE)
  have v: "digits_value ?ds = nat i" using p by (elim conjE)
  have ws: "list_all is_white_space []" by simp
  have r: "([]::string) = [] \<or> \<not> is_digit (hd [])" by simp
  have "parseInt10 ([] @ ?ds @ []) = number_of_int (int (digits_value ?ds))"
    using ws ne dg r by (rule parseInt10_unsigned)
  then have "parseInt10 ?ds = number_of_int (int (nat i))"
    by (simp only: v append_Nil append_Nil2)
  moreover from False have "int (nat i) = i" by simp
  moreover from False assms have "String_of_number i = ?ds"
    by (simp add: String_of_number_safe)
  ultimately have "parseInt10 (String_of_number i) = number_of_int i" by simp
  with assms show ?thesis by (simp add: number_of_int_safe)
qed

subsection \<open>The API client\<close>

text \<open>
  With the store hash and the access token configured, the client makes one call to
  \<^verbatim>\<open>fetch\<close>, with the URL built from the origin, the store hash and the path, and with the
  caller's options except for the headers, which are the defaults overridden by what the
  spread copies from the caller's headers.
\<close>

lemma bigcommerce_call:
  assumes "getStoreHash e = Inr storeHash" and "getAccessToken e = Inr accessToken"
  shows "bigcommerce server e path options net =
    (Inr (server (getApiOrigin e @ ''/stores/'' @ storeHash @ path,
            options\<lparr>headers := Some (Record (default_headers accessToken
              ++ spread (case headers options of None \<Rightarrow> Record Map.empty | Some h \<Rightarrow> h)))\<rparr>)),
     net @ [(getApiOrigin e @ ''/stores/'' @ storeHash @ path,
            options\<lparr>headers := Some (Record (default_headers accessToken
              ++ spread (case headers options of None \<Rightarrow> Record Map.empty | Some h \<Rightarrow> h)))\<rparr>)])"
  using assms by (simp add: bigcommerce_def fetch_def Let_def)

lemma merged_headers_Record:
  "(default_headers accessToken ++ spread (Record h)) k
     = (case h k of Some v \<Rightarrow> Some v | None \<Rightarrow> default_headers accessToken k)"
  by (simp add: spread_def map_add_def)

lemma merged_headers_Headers_instance:
  "default_headers accessToken ++ spread (Headers_instance hs) = default_headers accessToken"
  by (simp add: spread_def)

lemma spread_Pairs_keys:
  assumes "\<not> list_all is_digit k"
  shows "spread (Pairs ps) k = None"
proof -
  have "k \<notin> set (map digits_of_nat [0..<length ps])"
  proof
    assume "k \<in> set (map digits_of_nat [0..<length ps])"
    then obtain i where "k = digits_of_nat i" by auto
    with digits_of_nat_props [of i] assms show False by simp
  qed
  then have "k \<notin> fst ` set (zip (map digits_of_nat [0..<length ps]) (map Tuple ps))"
    by (auto dest: set_zip_leftD)
  then show ?thesis
    by (simp add: spread_def map_of_eq_None_iff)
qed

lemma merged_headers_Pairs:
  "\<not> list_all is_digit k \<Longrightarrow>
     (default_headers accessToken ++ spread (Pairs ps)) k = default_headers accessToken k"
  by (simp add: map_add_def spread_Pairs_keys)

subsection \<open>The shape of the error messages\<close>

lemma remap_assignment_Inl_not_found:
  "remap_assignment m1 m2 a = Inl e \<Longrightarrow>
     \<exists>t. e = Error (''Stencil category name not found for category ID '' @ t)
        \<or> e = Error (''Catalyst category ID not found for category name '' @ t)"
  by (auto simp: remap_assignment_def split: option.splits if_splits)

lemma some_failure_build_not_found:
  assumes "a \<in> set xs" and "remap_assignment m1 m2 a = Inl e"
  shows "\<exists>t. buildProductCategoryAssignmentsForNewCategories xs m1 m2
            = Inl (Error (''Stencil category name not found for category ID '' @ t))
        \<or> buildProductCategoryAssignmentsForNewCategories xs m1 m2
            = Inl (Error (''Catalyst category ID not found for category name '' @ t))"
proof -
  from array_map_some_failure [where f = "remap_assignment m1 m2", OF assms]
  obtain e' where e': "array_map (remap_assignment m1 m2) xs = Inl e'" ..
  from array_map_failure_origin [where f = "remap_assignment m1 m2", OF e']
  obtain b where "remap_assignment m1 m2 b = Inl e'" by (elim bexE)
  from remap_assignment_Inl_not_found [OF this]
  obtain t where "e' = Error (''Stencil category name not found for category ID '' @ t)
        \<or> e' = Error (''Catalyst category ID not found for category name '' @ t)" ..
  with e' show ?thesis
    unfolding buildProductCategoryAssignmentsForNewCategories_def by (intro exI [of _ t]) simp
qed

section \<open>Properties of the remapping\<close>

text \<open>
  C1. \<^const>\<open>buildProductCategoryAssignmentsForNewCategories\<close> depends on its three
  arguments only. With \<open>{5: "Shoes"}\<close> and \<open>{"Shoes": 42}\<close> the input
  \<open>[{product_id: 100, category_id: 5}]\<close> yields exactly \<open>[{product_id: 100, category_id: 42}]\<close>.
  In general the result has one element per input element, and for an assignment whose
  category id is a key of the first map and whose name is a key of the second, the element
  at the same position has the same product id and the second map's value for that name.
  The function does return when every assignment maps to a non-empty name and that name to
  a non-zero id.
\<close>

theorem C1_remap:
  "buildProductCategoryAssignmentsForNewCategories [\<lparr>product_id = 100, category_id = 5\<rparr>]
      [5 \<mapsto> ''Shoes''] [''Shoes'' \<mapsto> 42] = Inr [\<lparr>product_id = 100, category_id = 42\<rparr>]
   \<and> (buildProductCategoryAssignmentsForNewCategories xs m1 m2 = Inr ys \<longrightarrow>
        length ys = length xs
        \<and> (\<forall>i < length xs. \<forall>n c.
              m1 (product_category_assignment.category_id (xs ! i)) = Some n \<and> m2 n = Some c \<longrightarrow>
              product_id (ys ! i) = product_id (xs ! i)
              \<and> product_category_assignment.category_id (ys ! i) = c))
   \<and> ((\<forall>a \<in> set xs. \<exists>n c. m1 (product_category_assignment.category_id a) = Some n \<and> n \<noteq> []
                          \<and> m2 n = Some c \<and> c \<noteq> 0) \<longrightarrow>
        buildProductCategoryAssignmentsForNewCategories xs m1 m2 =
          Inr (map (\<lambda>a. \<lparr>product_id = product_id a,
                          category_id = the (m2 (the (m1 (product_category_assignment.category_id a))))\<rparr>) xs))"
proof (intro conjI impI)
  show "buildProductCategoryAssignmentsForNewCategories [\<lparr>product_id = 100, category_id = 5\<rparr>]
      [5 \<mapsto> ''Shoes''] [''Shoes'' \<mapsto> 42] = Inr [\<lparr>product_id = 100, category_id = 42\<rparr>]"
    by (simp add: buildProductCategoryAssignmentsForNewCategories_def remap_assignment_def)
next
  assume r: "buildProductCategoryAssignmentsForNewCategories xs m1 m2 = Inr ys"
  then have l2: "list_all2 (\<lambda>x y. remap_assignment m1 m2 x = Inr y) xs ys"
    by (simp add: buildProductCategoryAssignmentsForNewCategories_def array_map_Inr_D)
  then show "length ys = length xs"
    by (simp add: list_all2_lengthD)
  show "\<forall>i < length xs. \<forall>n c.
          m1 (product_category_assignment.category_id (xs ! i)) = Some n \<and> m2 n = Some c \<longrightarrow>
          product_id (ys ! i) = product_id (xs ! i)
          \<and> product_category_assignment.category_id (ys ! i) = c"
  proof (intro allI impI)
    fix i n c
    assume i: "i < length xs"
      and look: "m1 (product_category_assignment.category_id (xs ! i)) = Some n \<and> m2 n = Some c"
    from l2 i have "remap_assignment m1 m2 (xs ! i) = Inr (ys ! i)"
      by (rule list_all2_nthD)
    with look show "product_id (ys ! i) = product_id (xs ! i)
          \<and> product_category_assignment.category_id (ys ! i) = c"
      by (auto simp: remap_assignment_Inr)
  qed
next
  assume ok: "\<forall>a \<in> set xs. \<exists>n c. m1 (product_category_assignment.category_id a) = Some n \<and> n \<noteq> []
                          \<and> m2 n = Some c \<and> c \<noteq> 0"
  have "\<forall>a \<in> set xs. remap_assignment m1 m2 a =
          Inr \<lparr>product_id = product_id a,
               category_id = the (m2 (the (m1 (product_category_assignment.category_id a))))\<rparr>"
  proof
    fix a assume "a \<in> set xs"
    with ok obtain n c where "m1 (product_category_assignment.category_id a) = Some n" "n \<noteq> []"
      "m2 n = Some c" "c \<noteq> 0" by blast
    then show "remap_assignment m1 m2 a =
          Inr \<lparr>product_id = product_id a,
               category_id = the (m2 (the (m1 (product_category_assignment.category_id a))))\<rparr>"
      by (simp add: remap_assignment_Inr)
  qed
  then show "buildProductCategoryAssignmentsForNewCategories xs m1 m2 =
          Inr (map (\<lambda>a. \<lparr>product_id = product_id a,
                          category_id = the (m2 (the (m1 (product_category_assignment.category_id a))))\<rparr>) xs)"
    unfolding buildProductCategoryAssignmentsForNewCategories_def by (rule array_map_all_Inr)
qed

text \<open>An instance with two assignments, where the result is computed through the theorem.\<close>

theorem C1_remap_witness:
  "buildProductCategoryAssignmentsForNewCategories
      [\<lparr>product_id = 100, category_id = 5\<rparr>, \<lparr>product_id = 101, category_id = 6\<rparr>]
      [5 \<mapsto> ''Shoes'', 6 \<mapsto> ''Hats''] [''Shoes'' \<mapsto> 42, ''Hats'' \<mapsto> 43]
    = Inr [\<lparr>product_id = 100, category_id = 42\<rparr>, \<lparr>product_id = 101, category_id = 43\<rparr>]"
  using C1_remap [of "[\<lparr>product_id = 100, category_id = 5\<rparr>, \<lparr>product_id = 101, category_id = 6\<rparr>]"
      "[5 \<mapsto> ''Shoes'', 6 \<mapsto> ''Hats'']" "[''Shoes'' \<mapsto> 42, ''Hats'' \<mapsto> 43]"]
  by simp

text \<open>
  C3. End to end: the id-to-name map of the source categories \<open>1: A, 2: B\<close> and the
  name-to-id map of the created categories \<open>10: A, 11: B\<close> send the assignment of
  product 7 to category 2 to the assignment of product 7 to category 11.
\<close>

theorem C3_end_to_end:
  "buildProductCategoryAssignmentsForNewCategories [\<lparr>product_id = 7, category_id = 2\<rparr>]
     (categoriesMap [\<lparr>name = ''A'', sort_order = 0, category.category_id = 1\<rparr>,
                     \<lparr>name = ''B'', sort_order = 1, category.category_id = 2\<rparr>])
     (createdCategoriesMap [\<lparr>name = ''A'', sort_order = 0, category.category_id = 10\<rparr>,
                            \<lparr>name = ''B'', sort_order = 1, category.category_id = 11\<rparr>])
   = Inr [\<lparr>product_id = 7, category_id = 11\<rparr>]"
  by (simp add: buildProductCategoryAssignmentsForNewCategories_def remap_assignment_def
      categoriesMap_def createdCategoriesMap_def Map_new_def)

text \<open>
  C2 as stated fails on a list that mixes the two kinds of dangling reference: the first
  assignment names a category that was not created, the second has the unknown id 999,
  and the error reports the name of the first, not the id 999.
\<close>

theorem C2_mixed_list_counterexample:
  "[5 \<mapsto> ''Shoes''] (999::int) = None
   \<and> buildProductCategoryAssignmentsForNewCategories
        [\<lparr>product_id = 100, category_id = 5\<rparr>, \<lparr>product_id = 100, category_id = 999\<rparr>]
        [5 \<mapsto> ''Shoes''] Map.empty
      = Inl (Error ''Catalyst category ID not found for category name Shoes'')"
  by (simp add: buildProductCategoryAssignmentsForNewCategories_def remap_assignment_def)

text \<open>
  C2, amended. A list that contains an assignment whose category id is absent from the
  id-to-name map, or whose name is absent from the name-to-id map, makes the function
  throw: there is no partial result, no default and no skipping. The error is the one of
  the first assignment of the list that cannot be remapped: when that assignment's id is
  absent the message ends with that id, printed as the language prints a number (with all
  its decimal digits below \<open>2 ^ 53\<close>, see \<open>String_of_number_safe\<close>); when its
  (non-empty) name is absent the message ends with that name.
\<close>

theorem C2_first_failure_aborts:
  "((\<exists>a \<in> set xs. m1 (product_category_assignment.category_id a) = None
        \<or> (\<exists>n. m1 (product_category_assignment.category_id a) = Some n \<and> m2 n = None)) \<longrightarrow>
      (\<exists>msg. buildProductCategoryAssignmentsForNewCategories xs m1 m2 = Inl (Error msg)))
   \<and> ((\<forall>x \<in> set pre. \<exists>y. remap_assignment m1 m2 x = Inr y)
        \<and> m1 (product_category_assignment.category_id a) = None \<longrightarrow>
      buildProductCategoryAssignmentsForNewCategories (pre @ a # post) m1 m2 =
        Inl (Error (''Stencil category name not found for category ID ''
               @ String_of_number (product_category_assignment.category_id a))))
   \<and> ((\<forall>x \<in> set pre. \<exists>y. remap_assignment m1 m2 x = Inr y)
        \<and> m1 (product_category_assignment.category_id a) = Some n \<and> n \<noteq> [] \<and> m2 n = None \<longrightarrow>
      buildProductCategoryAssignmentsForNewCategories (pre @ a # post) m1 m2 =
        Inl (Error (''Catalyst category ID not found for category name '' @ n)))"
proof (intro conjI impI)
  assume "\<exists>a \<in> set xs. m1 (product_category_assignment.category_id a) = None
        \<or> (\<exists>n. m1 (product_category_assignment.category_id a) = Some n \<and> m2 n = None)"
  then obtain b where b: "b \<in> set xs"
    and miss: "m1 (product_category_assignment.category_id b) = None
        \<or> (\<exists>n. m1 (product_category_assignment.category_id b) = Some n \<and> m2 n = None)"
    by (elim bexE)
  from miss have "\<exists>e. remap_assignment m1 m2 b = Inl e"
    by (auto simp: remap_assignment_def)
  then obtain e where "remap_assignment m1 m2 b = Inl e" ..
  with b show "\<exists>msg. buildProductCategoryAssignmentsForNewCategories xs m1 m2 = Inl (Error msg)"
    by (rule some_failure_build)
next
  assume h: "(\<forall>x \<in> set pre. \<exists>y. remap_assignment m1 m2 x = Inr y)
        \<and> m1 (product_category_assignment.category_id a) = None"
  then have pre: "\<forall>x \<in> set pre. \<exists>y. remap_assignment m1 m2 x = Inr y" ..
  from h have "remap_assignment m1 m2 a =
      Inl (Error (''Stencil category name not found for category ID ''
             @ String_of_number (product_category_assignment.category_id a)))"
    by (simp add: remap_assignment_def)
  with pre show "buildProductCategoryAssignmentsForNewCategories (pre @ a # post) m1 m2 =
        Inl (Error (''Stencil category name not found for category ID ''
               @ String_of_number (product_category_assignment.category_id a)))"
    by (rule first_failure_build)
next
  assume h: "(\<forall>x \<in> set pre. \<exists>y. remap_assignment m1 m2 x = Inr y)
        \<and> m1 (product_category_assignment.category_id a) = Some n \<and> n \<noteq> [] \<and> m2 n = None"
  then have pre: "\<forall>x \<in> set pre. \<exists>y. remap_assignment m1 m2 x = Inr y" ..
  from h have "remap_assignment m1 m2 a =
      Inl (Error (''Catalyst category ID not found for category name '' @ n))"
    by (simp add: remap_assignment_def)
  with pre show "buildProductCategoryAssignmentsForNewCategories (pre @ a # post) m1 m2 =
        Inl (Error (''Catalyst category ID not found for category name '' @ n))"
    by (rule first_failure_build)
qed

text \<open>
  Two lists of three assignments whose second element is the first that fails: once with
  the unknown id 999, once with the name Hats that has no new id.
\<close>

theorem C2_first_failure_aborts_witness:
  "(\<exists>msg. buildProductCategoryAssignmentsForNewCategories
       [\<lparr>product_id = 1, category_id = 5\<rparr>, \<lparr>product_id = 100, category_id = 999\<rparr>,
        \<lparr>product_id = 2, category_id = 5\<rparr>]
       [5 \<mapsto> ''Shoes''] [''Shoes'' \<mapsto> 42] = Inl (Error msg))
   \<and> buildProductCategoryAssignmentsForNewCategories
       [\<lparr>product_id = 1, category_id = 5\<rparr>, \<lparr>product_id = 100, category_id = 999\<rparr>,
        \<lparr>product_id = 2, category_id = 5\<rparr>]
       [5 \<mapsto> ''Shoes''] [''Shoes'' \<mapsto> 42]
     = Inl (Error ''Stencil category name not found for category ID 999'')
   \<and> buildProductCategoryAssignmentsForNewCategories
       [\<lparr>product_id = 1, category_id = 5\<rparr>, \<lparr>product_id = 100, category_id = 6\<rparr>,
        \<lparr>product_id = 2, category_id = 999\<rparr>]
       [5 \<mapsto> ''Shoes'', 6 \<mapsto> ''Hats''] [''Shoes'' \<mapsto> 42]
     = Inl (Error ''Catalyst category ID not found for category name Hats'')"
proof -
  let ?p = "\<lparr>product_id = 1, category_id = 5\<rparr>"
  let ?L1 = "[?p, \<lparr>product_id = 100, category_id = 999\<rparr>, \<lparr>product_id = 2, category_id = 5\<rparr>]"
  have pre1: "\<forall>x \<in> set [?p].
      \<exists>y. remap_assignment [5 \<mapsto> ''Shoes''] [''Shoes'' \<mapsto> 42] x = Inr y"
    by (simp add: remap_assignment_def)
  have pre2: "\<forall>x \<in> set [?p].
      \<exists>y. remap_assignment [5 \<mapsto> ''Shoes'', 6 \<mapsto> ''Hats''] [''Shoes'' \<mapsto> 42] x = Inr y"
    by (simp add: remap_assignment_def)
  have miss: "\<exists>a \<in> set ?L1. [5 \<mapsto> ''Shoes''] (product_category_assignment.category_id a) = None
      \<or> (\<exists>n. [5 \<mapsto> ''Shoes''] (product_category_assignment.category_id a) = Some n
             \<and> [''Shoes'' \<mapsto> 42::int] n = None)"
    by simp
  note t1 = C2_first_failure_aborts
      [of ?L1 "[5 \<mapsto> ''Shoes'']" "[''Shoes'' \<mapsto> 42]" "[?p]"
        "\<lparr>product_id = 100, category_id = 999\<rparr>" "[\<lparr>product_id = 2, category_id = 5\<rparr>]" "''x''"]
  note t2 = C2_first_failure_aborts
      [of ?L1 "[5 \<mapsto> ''Shoes'', 6 \<mapsto> ''Hats'']" "[''Shoes'' \<mapsto> 42]" "[?p]"
        "\<lparr>product_id = 100, category_id = 6\<rparr>" "[\<lparr>product_id = 2, category_id = 999\<rparr>]" "''Hats''"]
  from conjunct1 [OF t1] miss
  have c: "\<exists>msg. buildProductCategoryAssignmentsForNewCategories ?L1
       [5 \<mapsto> ''Shoes''] [''Shoes'' \<mapsto> 42] = Inl (Error msg)"
    by (rule mp)
  from t1 pre1 have a: "buildProductCategoryAssignmentsForNewCategories ?L1
       [5 \<mapsto> ''Shoes''] [''Shoes'' \<mapsto> 42]
     = Inl (Error ''Stencil category name not found for category ID 999'')"
    by (simp add: String_of_number_999)
  from t2 pre2 have b: "buildProductCategoryAssignmentsForNewCategories
       [?p, \<lparr>product_id = 100, category_id = 6\<rparr>, \<lparr>product_id = 2, category_id = 999\<rparr>]
       [5 \<mapsto> ''Shoes'', 6 \<mapsto> ''Hats''] [''Shoes'' \<mapsto> 42]
     = Inl (Error ''Catalyst category ID not found for category name Hats'')"
    by simp
  from c a b show ?thesis by (intro conjI)
qed

text \<open>
  C10. A lookup that finds a falsy value is treated as a miss. A list that contains an
  assignment whose category id maps to the empty name, or whose name maps to the new id 0,
  makes the function throw one of its two "not found" errors; when that assignment is
  the first that fails, the error is the "not found" error for its id (empty name) or for
  its name (new id 0), although the key is present in the map.
\<close>

theorem C10_falsy_lookup_throws:
  "(a \<in> set xs
        \<and> (m1 (product_category_assignment.category_id a) = Some []
             \<or> (m1 (product_category_assignment.category_id a) = Some n \<and> m2 n = Some 0)) \<longrightarrow>
      (\<exists>t. buildProductCategoryAssignmentsForNewCategories xs m1 m2
              = Inl (Error (''Stencil category name not found for category ID '' @ t))
          \<or> buildProductCategoryAssignmentsForNewCategories xs m1 m2
              = Inl (Error (''Catalyst category ID not found for category name '' @ t))))
   \<and> ((\<forall>x \<in> set pre. \<exists>y. remap_assignment m1 m2 x = Inr y)
        \<and> m1 (product_category_assignment.category_id a) = Some [] \<longrightarrow>
      buildProductCategoryAssignmentsForNewCategories (pre @ a # post) m1 m2 =
        Inl (Error (''Stencil category name not found for category ID ''
               @ String_of_number (product_category_assignment.category_id a))))
   \<and> ((\<forall>x \<in> set pre. \<exists>y. remap_assignment m1 m2 x = Inr y)
        \<and> m1 (product_category_assignment.category_id a) = Some n \<and> n \<noteq> [] \<and> m2 n = Some 0 \<longrightarrow>
      buildProductCategoryAssignmentsForNewCategories (pre @ a # post) m1 m2 =
        Inl (Error (''Catalyst category ID not found for category name '' @ n)))"
proof (intro conjI impI)
  assume h: "a \<in> set xs
        \<and> (m1 (product_category_assignment.category_id a) = Some []
             \<or> (m1 (product_category_assignment.category_id a) = Some n \<and> m2 n = Some 0))"
  then have a: "a \<in> set xs" ..
  from h have "\<exists>e. remap_assignment m1 m2 a = Inl e"
    by (auto simp: remap_assignment_def)
  then obtain e where "remap_assignment m1 m2 a = Inl e" ..
  with a show "\<exists>t. buildProductCategoryAssignmentsForNewCategories xs m1 m2
              = Inl (Error (''Stencil category name not found for category ID '' @ t))
          \<or> buildProductCategoryAssignmentsForNewCategories xs m1 m2
              = Inl (Error (''Catalyst category ID not found for category name '' @ t))"
    by (rule some_failure_build_not_found)
next
  assume h: "(\<forall>x \<in> set pre. \<exists>y. remap_assignment m1 m2 x = Inr y)
        \<and> m1 (product_category_assignment.category_id a) = Some []"
  then have pre: "\<forall>x \<in> set pre. \<exists>y. remap_assignment m1 m2 x = Inr y" ..
  from h have "remap_assignment m1 m2 a =
        Inl (Error (''Stencil category name not found for category ID ''
               @ String_of_number (product_category_assignment.category_id a)))"
    by (simp add: remap_assignment_def)
  with pre show "buildProductCategoryAssignmentsForNewCategories (pre @ a # post) m1 m2 =
        Inl (Error (''Stencil category name not found for category ID ''
               @ String_of_number (product_category_assignment.category_id a)))"
    by (rule first_failure_build)
next
  assume h: "(\<forall>x \<in> set pre. \<exists>y. remap_assignment m1 m2 x = Inr y)
        \<and> m1 (product_category_assignment.category_id a) = Some n \<and> n \<noteq> [] \<and> m2 n = Some 0"
  then have pre: "\<forall>x \<in> set pre. \<exists>y. remap_assignment m1 m2 x = Inr y" ..
  from h have "remap_assignment m1 m2 a =
        Inl (Error (''Catalyst category ID not found for category name '' @ n))"
    by (simp add: remap_assignment_def)
  with pre show "buildProductCategoryAssignmentsForNewCategories (pre @ a # post) m1 m2 =
        Inl (Error (''Catalyst category ID not found for category name '' @ n))"
    by (rule first_failure_build)
qed

text \<open>A list whose second assignment hits the falsy value, after one that is remapped.\<close>

theorem C10_falsy_lookup_throws_witness:
  "buildProductCategoryAssignmentsForNewCategories
       [\<lparr>product_id = 1, category_id = 6\<rparr>, \<lparr>product_id = 100, category_id = 5\<rparr>]
       [5 \<mapsto> '''', 6 \<mapsto> ''Hats''] [''Shoes'' \<mapsto> 42, ''Hats'' \<mapsto> 43]
     = Inl (Error ''Stencil category name not found for category ID 5'')
   \<and> buildProductCategoryAssignmentsForNewCategories
       [\<lparr>product_id = 1, category_id = 6\<rparr>, \<lparr>product_id = 100, category_id = 5\<rparr>]
       [5 \<mapsto> ''Shoes'', 6 \<mapsto> ''Hats''] [''Shoes'' \<mapsto> 0, ''Hats'' \<mapsto> 43]
     = Inl (Error ''Catalyst category ID not found for category name Shoes'')
   \<and> (\<exists>t. buildProductCategoryAssignmentsForNewCategories
         [\<lparr>product_id = 1, category_id = 6\<rparr>, \<lparr>product_id = 100, category_id = 5\<rparr>]
         [5 \<mapsto> ''Shoes'', 6 \<mapsto> ''Hats''] [''Shoes'' \<mapsto> 0, ''Hats'' \<mapsto> 43]
          = Inl (Error (''Stencil category name not found for category ID '' @ t))
        \<or> buildProductCategoryAssignmentsForNewCategories
         [\<lparr>product_id = 1, category_id = 6\<rparr>, \<lparr>product_id = 100, category_id = 5\<rparr>]
         [5 \<mapsto> ''Shoes'', 6 \<mapsto> ''Hats''] [''Shoes'' \<mapsto> 0, ''Hats'' \<mapsto> 43]
          = Inl (Error (''Catalyst category ID not found for category name '' @ t)))"
proof -
  let ?p = "\<lparr>product_id = 1, category_id = 6\<rparr>"
  let ?a = "\<lparr>product_id = 100, category_id = 5\<rparr>"
  let ?m1 = "[5 \<mapsto> ''Shoes'', 6 \<mapsto> ''Hats'']"
  let ?m2 = "[''Shoes'' \<mapsto> 0::int, ''Hats'' \<mapsto> 43]"
  have pre1: "\<forall>x \<in> set [?p]. \<exists>y. remap_assignment [5 \<mapsto> '''', 6 \<mapsto> ''Hats'']
      [''Shoes'' \<mapsto> 42, ''Hats'' \<mapsto> 43] x = Inr y"
    by (simp add: remap_assignment_def)
  have pre2: "\<forall>x \<in> set [?p]. \<exists>y. remap_assignment ?m1 ?m2 x = Inr y"
    by (simp add: remap_assignment_def)
  note t1 = C10_falsy_lookup_throws [of ?a "[?p, ?a]" "[5 \<mapsto> '''', 6 \<mapsto> ''Hats'']" "''Shoes''"
      "[''Shoes'' \<mapsto> 42, ''Hats'' \<mapsto> 43]" "[?p]" "[]"]
  note t2 = C10_falsy_lookup_throws [of ?a "[?p, ?a]" ?m1 "''Shoes''" ?m2 "[?p]" "[]"]
  from t1 pre1 have a: "buildProductCategoryAssignmentsForNewCategories [?p, ?a]
       [5 \<mapsto> '''', 6 \<mapsto> ''Hats''] [''Shoes'' \<mapsto> 42, ''Hats'' \<mapsto> 43]
     = Inl (Error ''Stencil category name not found for category ID 5'')"
    by (simp add: String_of_number_5)
  from t2 pre2 have b: "buildProductCategoryAssignmentsForNewCategories [?p, ?a] ?m1 ?m2
     = Inl (Error ''Catalyst category ID not found for category name Shoes'')"
    by simp
  have hyp: "?a \<in> set [?p, ?a]
        \<and> (?m1 (product_category_assignment.category_id ?a) = Some []
             \<or> (?m1 (product_category_assignment.category_id ?a) = Some ''Shoes''
                  \<and> ?m2 ''Shoes'' = Some 0))"
    by simp
  have c: "\<exists>t. buildProductCategoryAssignmentsForNewCategories [?p, ?a] ?m1 ?m2
          = Inl (Error (''Stencil category name not found for category ID '' @ t))
        \<or> buildProductCategoryAssignmentsForNewCategories [?p, ?a] ?m1 ?m2
          = Inl (Error (''Catalyst category ID not found for category name '' @ t))"
    by (rule mp [OF conjunct1 [OF t2] hyp])
  from a b c show ?thesis by (intro conjI)
qed

text \<open>
  C9. When the created categories hold two entries with the same name, building the
  name-to-id map raises nothing and binds the name to the id of the later entry (the last
  one with that name). Every assignment whose category id refers to that name is
  remapped to the later entry's id: this is the element of any returned result at its
  position, and the result is returned when all assignments refer to that name, the name
  is not empty and the later id is not 0.
\<close>

theorem C9_later_duplicate_shadows:
  assumes "name c1 = name c2" and "\<forall>d \<in> set post. name d \<noteq> name c2"
  shows "createdCategoriesMap (pre @ c1 # mid @ c2 # post) (name c1) = Some (category.category_id c2)
   \<and> (buildProductCategoryAssignmentsForNewCategories xs m1
          (createdCategoriesMap (pre @ c1 # mid @ c2 # post)) = Inr ys
        \<and> i < length xs \<and> m1 (product_category_assignment.category_id (xs ! i)) = Some (name c1) \<longrightarrow>
          ys ! i = \<lparr>product_id = product_id (xs ! i), category_id = category.category_id c2\<rparr>)
   \<and> ((\<forall>a \<in> set xs. m1 (product_category_assignment.category_id a) = Some (name c1))
        \<and> name c1 \<noteq> [] \<and> category.category_id c2 \<noteq> 0 \<longrightarrow>
          buildProductCategoryAssignmentsForNewCategories xs m1
            (createdCategoriesMap (pre @ c1 # mid @ c2 # post))
          = Inr (map (\<lambda>a. \<lparr>product_id = product_id a, category_id = category.category_id c2\<rparr>) xs))"
proof (intro conjI impI)
  let ?m2 = "createdCategoriesMap (pre @ c1 # mid @ c2 # post)"
  from createdCategoriesMap_last_wins [OF assms(2), of "pre @ c1 # mid"] assms(1)
  show look: "?m2 (name c1) = Some (category.category_id c2)" by simp
  {
    assume h: "buildProductCategoryAssignmentsForNewCategories xs m1 ?m2 = Inr ys
        \<and> i < length xs \<and> m1 (product_category_assignment.category_id (xs ! i)) = Some (name c1)"
    then have "list_all2 (\<lambda>x y. remap_assignment m1 ?m2 x = Inr y) xs ys"
      by (simp add: buildProductCategoryAssignmentsForNewCategories_def array_map_Inr_D)
    moreover from h have "i < length xs" by simp
    ultimately have "remap_assignment m1 ?m2 (xs ! i) = Inr (ys ! i)"
      by (rule list_all2_nthD)
    with h look show "ys ! i = \<lparr>product_id = product_id (xs ! i), category_id = category.category_id c2\<rparr>"
      by (auto simp: remap_assignment_Inr)
  }
  {
    assume h: "(\<forall>a \<in> set xs. m1 (product_category_assignment.category_id a) = Some (name c1))
        \<and> name c1 \<noteq> [] \<and> category.category_id c2 \<noteq> 0"
    with look have "\<forall>a \<in> set xs. remap_assignment m1 ?m2 a =
        Inr \<lparr>product_id = product_id a, category_id = category.category_id c2\<rparr>"
      by (simp add: remap_assignment_Inr)
    then show "buildProductCategoryAssignmentsForNewCategories xs m1 ?m2
          = Inr (map (\<lambda>a. \<lparr>product_id = product_id a, category_id = category.category_id c2\<rparr>) xs)"
      unfolding buildProductCategoryAssignmentsForNewCategories_def by (rule array_map_all_Inr)
  }
qed

text \<open>Created categories A: 10, B: 11, A: 12 and two assignments to the old category A.\<close>

theorem C9_later_duplicate_shadows_witness:
  "createdCategoriesMap
       [\<lparr>name = ''A'', sort_order = 0, category.category_id = 10\<rparr>,
        \<lparr>name = ''B'', sort_order = 1, category.category_id = 11\<rparr>,
        \<lparr>name = ''A'', sort_order = 2, category.category_id = 12\<rparr>] ''A'' = Some 12
   \<and> buildProductCategoryAssignmentsForNewCategories
       [\<lparr>product_id = 7, category_id = 1\<rparr>, \<lparr>product_id = 8, category_id = 1\<rparr>] [1 \<mapsto> ''A'']
       (createdCategoriesMap
         [\<lparr>name = ''A'', sort_order = 0, category.category_id = 10\<rparr>,
          \<lparr>name = ''B'', sort_order = 1, category.category_id = 11\<rparr>,
          \<lparr>name = ''A'', sort_order = 2, category.category_id = 12\<rparr>])
     = Inr [\<lparr>product_id = 7, category_id = 12\<rparr>, \<lparr>product_id = 8, category_id = 12\<rparr>]"
  using C9_later_duplicate_shadows
    [of "\<lparr>name = ''A'', sort_order = 0, category.category_id = 10\<rparr>"
        "\<lparr>name = ''A'', sort_order = 2, category.category_id = 12\<rparr>"
        "[]" "[]" "[\<lparr>name = ''B'', sort_order = 1, category.category_id = 11\<rparr>]"
        "[\<lparr>product_id = 7, category_id = 1\<rparr>, \<lparr>product_id = 8, category_id = 1\<rparr>]"
        "[1 \<mapsto> ''A'']"]
  by simp

section \<open>Properties of the other transformations\<close>

text \<open>
  C5. For every category list and every \<open>newTreeId\<close>, \<^const>\<open>buildCategoriesForNewTree\<close>
  returns a list of the same length whose element at each position is exactly the record
  of the input's name, the input's sort order and \<open>tree_id = newTreeId\<close>. The result type
  has these three fields only, and whatever else the input objects carry (for a category,
  its \<open>category_id\<close>) has no influence on the result.
\<close>

theorem C5_new_tree_categories:
  "length (buildCategoriesForNewTree categories newTreeId) = length categories
   \<and> (\<forall>i < length categories.
        buildCategoriesForNewTree categories newTreeId ! i =
          \<lparr>name = name (categories ! i), sort_order = sort_order (categories ! i),
           tree_id = newTreeId\<rparr>
        \<and> tree_id (buildCategoriesForNewTree categories newTreeId ! i) = newTreeId
        \<and> name (buildCategoriesForNewTree categories newTreeId ! i) = name (categories ! i)
        \<and> sort_order (buildCategoriesForNewTree categories newTreeId ! i)
            = sort_order (categories ! i))
   \<and> buildCategoriesForNewTree (map (cat_fields.more_update g) categories) newTreeId
        = buildCategoriesForNewTree categories newTreeId"
  by (simp add: buildCategoriesForNewTree_def)

text \<open>Two source categories with ids 1 and 2, moved to tree 9.\<close>

theorem C5_new_tree_categories_witness:
  "buildCategoriesForNewTree
      [\<lparr>name = ''A'', sort_order = 0, category.category_id = 1\<rparr>,
       \<lparr>name = ''B'', sort_order = 1, category.category_id = 2\<rparr>] 9
    = [\<lparr>name = ''A'', sort_order = 0, tree_id = 9\<rparr>, \<lparr>name = ''B'', sort_order = 1, tree_id = 9\<rparr>]"
proof -
  let ?cs = "[\<lparr>name = ''A'', sort_order = 0, category.category_id = 1\<rparr>,
       \<lparr>name = ''B'', sort_order = 1, category.category_id = 2\<rparr>]"
  note t = C5_new_tree_categories [of ?cs 9 id]
  from t have l: "length (buildCategoriesForNewTree ?cs 9) = 2" by simp
  from t have "\<forall>i < 2. buildCategoriesForNewTree ?cs 9 ! i =
          \<lparr>name = name (?cs ! i), sort_order = sort_order (?cs ! i), tree_id = 9\<rparr>"
    by simp
  then have "buildCategoriesForNewTree ?cs 9 ! 0 = \<lparr>name = ''A'', sort_order = 0, tree_id = 9\<rparr>"
    and "buildCategoriesForNewTree ?cs 9 ! 1 = \<lparr>name = ''B'', sort_order = 1, tree_id = 9\<rparr>"
    by simp_all
  with l show ?thesis
    by (cases "buildCategoriesForNewTree ?cs 9"; cases "tl (buildCategoriesForNewTree ?cs 9)") auto
qed

text \<open>
  C4. When the target channel is configured, so that \<^const>\<open>getChannelId\<close> returns
  \<open>channelId\<close>, \<^const>\<open>buildProductChannelAssignmentsForNewChannel\<close> returns a list of the
  input's length whose element at each position has the input's product id and the channel
  id \<open>channelId\<close>. The original channel ids are discarded: changing them in the input does
  not change the outcome.
\<close>

theorem C4_channel_rewrite:
  "(getChannelId e = Inr channelId \<longrightarrow>
      (\<exists>ys. buildProductChannelAssignmentsForNewChannel e xs = Inr ys
         \<and> length ys = length xs
         \<and> (\<forall>i < length xs. product_id (ys ! i) = product_id (xs ! i)
                \<and> channel_id (ys ! i) = channelId)))
   \<and> buildProductChannelAssignmentsForNewChannel e (map (channel_id_update f) xs)
        = buildProductChannelAssignmentsForNewChannel e xs"
  by (simp add: buildProductChannelAssignmentsForNewChannel_def split: sum.splits)

text \<open>Channel 3 configured; assignments to channels 1 and 5.\<close>

theorem C4_channel_rewrite_witness:
  "buildProductChannelAssignmentsForNewChannel [''BIGCOMMERCE_CHANNEL_ID'' \<mapsto> ''3'']
      [\<lparr>product_id = 1, channel_id = Finite 1\<rparr>, \<lparr>product_id = 2, channel_id = Finite 5\<rparr>]
    = Inr [\<lparr>product_id = 1, channel_id = Finite 3\<rparr>, \<lparr>product_id = 2, channel_id = Finite 3\<rparr>]"
proof -
  let ?e = "[''BIGCOMMERCE_CHANNEL_ID'' \<mapsto> ''3'']"
  let ?xs = "[\<lparr>product_id = 1, channel_id = Finite 1\<rparr>, \<lparr>product_id = 2, channel_id = Finite 5\<rparr>]"
  have c: "getChannelId ?e = Inr (Finite 3)"
    by (simp add: getChannelId_def parse_defs number_of_int_safe)
  from C4_channel_rewrite [of ?e "Finite 3" ?xs id] c
  obtain ys where r: "buildProductChannelAssignmentsForNewChannel ?e ?xs = Inr ys"
    and l: "length ys = 2"
    and el: "\<forall>i < 2. product_id (ys ! i) = product_id (?xs ! i) \<and> channel_id (ys ! i) = Finite 3"
    by auto
  from el have "product_id (ys ! 0) = 1 \<and> channel_id (ys ! 0) = Finite 3"
    and "product_id (ys ! 1) = 2 \<and> channel_id (ys ! 1) = Finite 3"
    by simp_all
  with l have "ys = [\<lparr>product_id = 1, channel_id = Finite 3\<rparr>, \<lparr>product_id = 2, channel_id = Finite 3\<rparr>]"
    by (cases ys; cases "tl ys") auto
  with r show ?thesis by simp
qed

section \<open>Properties of the configuration and of the API client\<close>

text \<open>
  C6. The claim asks that every value that is not a base-10 integer be rejected, as the
  message of the second assertion says. The code does reject a value without digits, but
  it accepts \<open>"12abc"\<close> and returns 12: the parse stops at the first character that is not
  a digit and nothing checks that the whole value was read.
\<close>

theorem C6_trailing_characters_accepted:
  "spec_base10_integer ''12abc'' = None
   \<and> parseInt10 ''12abc'' = Finite 12
   \<and> getChannelId [''BIGCOMMERCE_CHANNEL_ID'' \<mapsto> ''12abc''] = Inr (Finite 12)
   \<and> getChannelId [''BIGCOMMERCE_CHANNEL_ID'' \<mapsto> ''abc'']
       = Inl (AssertionError ''BIGCOMMERCE_CHANNEL_ID must be a number'')"
  by (simp add: spec_base10_integer_def getChannelId_def parse_defs number_of_int_safe)

text \<open>
  C7. The value \<open>"0"\<close> parses to the number 0, which is falsy: \<^const>\<open>getChannelId\<close>
  throws the assertion error of its second check instead of returning 0, and so does every
  value that parses to 0. An unset variable is rejected by the first check; both are
  assertion errors about the configuration.
\<close>

theorem C7_zero_rejected:
  "parseInt10 ''0'' = Finite 0
   \<and> (e ''BIGCOMMERCE_CHANNEL_ID'' = Some ''0'' \<longrightarrow>
        getChannelId e = Inl (AssertionError ''BIGCOMMERCE_CHANNEL_ID must be a number''))
   \<and> (e ''BIGCOMMERCE_CHANNEL_ID'' = Some s \<and> parseInt10 s = Finite 0 \<longrightarrow>
        getChannelId e = Inl (AssertionError ''BIGCOMMERCE_CHANNEL_ID must be a number''))
   \<and> (e ''BIGCOMMERCE_CHANNEL_ID'' = None \<longrightarrow>
        getChannelId e = Inl (AssertionError ''BIGCOMMERCE_CHANNEL_ID missing in env''))"
proof (intro conjI impI)
  show z: "parseInt10 ''0'' = Finite 0" by (simp add: parse_defs number_of_int_safe)
  {
    assume "e ''BIGCOMMERCE_CHANNEL_ID'' = Some ''0''"
    with z show "getChannelId e = Inl (AssertionError ''BIGCOMMERCE_CHANNEL_ID must be a number'')"
      by (simp add: getChannelId_def)
  }
  {
    assume h: "e ''BIGCOMMERCE_CHANNEL_ID'' = Some s \<and> parseInt10 s = Finite 0"
    then have "s \<noteq> []" by (auto simp: parseInt10_Nil)
    with h show "getChannelId e = Inl (AssertionError ''BIGCOMMERCE_CHANNEL_ID must be a number'')"
      by (simp add: getChannelId_def)
  }
  {
    assume "e ''BIGCOMMERCE_CHANNEL_ID'' = None"
    then show "getChannelId e = Inl (AssertionError ''BIGCOMMERCE_CHANNEL_ID missing in env'')"
      by (simp add: getChannelId_def)
  }
qed

text \<open>The values \<open>"0"\<close> and \<open>"-00"\<close>, and the empty environment.\<close>

theorem C7_zero_rejected_witness:
  "getChannelId [''BIGCOMMERCE_CHANNEL_ID'' \<mapsto> ''0'']
     = Inl (AssertionError ''BIGCOMMERCE_CHANNEL_ID must be a number'')
   \<and> getChannelId [''BIGCOMMERCE_CHANNEL_ID'' \<mapsto> ''-00'']
     = Inl (AssertionError ''BIGCOMMERCE_CHANNEL_ID must be a number'')
   \<and> getChannelId Map.empty = Inl (AssertionError ''BIGCOMMERCE_CHANNEL_ID missing in env'')"
proof -
  have p: "parseInt10 ''-00'' = Finite 0" by (simp add: parse_defs number_of_int_safe)
  from C7_zero_rejected [of "[''BIGCOMMERCE_CHANNEL_ID'' \<mapsto> ''0'']" "''0''"]
  have a: "getChannelId [''BIGCOMMERCE_CHANNEL_ID'' \<mapsto> ''0'']
     = Inl (AssertionError ''BIGCOMMERCE_CHANNEL_ID must be a number'')" by simp
  from C7_zero_rejected [of "[''BIGCOMMERCE_CHANNEL_ID'' \<mapsto> ''-00'']" "''-00''"] p
  have b: "getChannelId [''BIGCOMMERCE_CHANNEL_ID'' \<mapsto> ''-00'']
     = Inl (AssertionError ''BIGCOMMERCE_CHANNEL_ID must be a number'')" by simp
  from C7_zero_rejected [of Map.empty "''0''"]
  have c: "getChannelId Map.empty = Inl (AssertionError ''BIGCOMMERCE_CHANNEL_ID missing in env'')"
    by simp
  from a b c show ?thesis by (intro conjI)
qed


end
